theory Spec2Isabelle
  imports Main
begin

section \<open>Python values and exceptions\<close>

text \<open>
  The containers hold arbitrary caller-supplied Python objects and never inspect them.
  The values below are the ones the methods tell apart: \<open>None\<close> (returned by
  \<open>peek\<close> on an empty container and by every method without a \<open>return\<close>),
  integers (counts and sizes), lists and tuples (the two classes the \<open>isinstance\<close>
  checks name), and strings as one more class of object that is neither.
\<close>

datatype pyval =
    PyNone
  | PyInt int
  | PyStr string
  | PyList "pyval list"
  | PyTuple "pyval list"

text \<open>
  The exception classes raised by the two source files and by \<open>collections.deque\<close>.
\<close>

datatype py_error = IndexError | TypeError | ValueError | RuntimeError | StopIteration

text \<open>
  The specification names two kinds of failure. \<open>IndexError\<close> is what
  \<open>dequeue\<close> and \<open>pop\<close> raise on an empty container (EmptyContainer);
  \<open>TypeError\<close> and \<open>ValueError\<close> are what the bulk and restore operations
  raise on an argument of the wrong class or a non-positive count (InvalidArgument).
  The two exceptions of the iterator protocol belong to neither kind.
\<close>

datatype error_kind = EmptyContainer | InvalidArgument

fun spec_error :: "py_error \<Rightarrow> error_kind option" where
  "spec_error IndexError = Some EmptyContainer"
| "spec_error TypeError = Some InvalidArgument"
| "spec_error ValueError = Some InvalidArgument"
| "spec_error RuntimeError = None"
| "spec_error StopIteration = None"

text \<open>\<open>isinstance(v, list)\<close> and \<open>isinstance(v, (list, tuple))\<close>.\<close>

fun isinstance_list :: "pyval \<Rightarrow> bool" where
  "isinstance_list (PyList xs) = True"
| "isinstance_list v = False"

fun isinstance_list_tuple :: "pyval \<Rightarrow> bool" where
  "isinstance_list_tuple (PyList xs) = True"
| "isinstance_list_tuple (PyTuple xs) = True"
| "isinstance_list_tuple v = False"

text \<open>The items an iteration over a list or a tuple produces.\<close>

fun seq_items :: "pyval \<Rightarrow> pyval list" where
  "seq_items (PyList xs) = xs"
| "seq_items (PyTuple xs) = xs"
| "seq_items v = []"

section \<open>The double-ended sequence\<close>

text \<open>
  Both classes keep their items in a \<open>collections.deque\<close>, leftmost item first.
  Besides its elements a deque carries a mutation counter, \<open>state\<close>, which every
  operation that moves its ends increments and which its iterators compare against;
  reversing and assigning to an index leave it alone. The counter is a natural number
  here and a machine word in the interpreter, which agree as long as fewer than
  \<open>2 ^ 32\<close> mutations lie between making an iterator and using it.
\<close>

record deque =
  elems :: "pyval list"
  state :: nat

definition deque_new :: "pyval list \<Rightarrow> deque" where
  "deque_new xs = \<lparr>elems = xs, state = length xs\<rparr>"

definition deque_len :: "deque \<Rightarrow> nat" where
  "deque_len d = length (elems d)"

text \<open>Truth value of a deque: it is true when it has an element.\<close>

definition deque_bool :: "deque \<Rightarrow> bool" where
  "deque_bool d = (deque_len d \<noteq> 0)"

definition deque_append :: "deque \<Rightarrow> pyval \<Rightarrow> deque" where
  "deque_append d x = \<lparr>elems = elems d @ [x], state = Suc (state d)\<rparr>"

definition deque_extend :: "deque \<Rightarrow> pyval list \<Rightarrow> deque" where
  "deque_extend d xs = foldl deque_append d xs"

definition deque_popleft :: "deque \<Rightarrow> py_error + pyval \<times> deque" where
  "deque_popleft d =
     (case elems d of
        [] \<Rightarrow> Inl IndexError
      | x # xs \<Rightarrow> Inr (x, \<lparr>elems = xs, state = Suc (state d)\<rparr>))"

definition deque_pop :: "deque \<Rightarrow> py_error + pyval \<times> deque" where
  "deque_pop d =
     (if elems d = [] then Inl IndexError
      else Inr (last (elems d), \<lparr>elems = butlast (elems d), state = Suc (state d)\<rparr>))"

text \<open>Indexing: a negative index counts from the right end; out of range raises.\<close>

definition deque_index :: "deque \<Rightarrow> int \<Rightarrow> py_error + nat" where
  "deque_index d i =
     (let n = int (deque_len d); j = (if i < 0 then i + n else i)
      in if 0 \<le> j \<and> j < n then Inr (nat j) else Inl IndexError)"

definition deque_getitem :: "deque \<Rightarrow> int \<Rightarrow> py_error + pyval" where
  "deque_getitem d i =
     (case deque_index d i of Inl e \<Rightarrow> Inl e | Inr j \<Rightarrow> Inr (elems d ! j))"

definition deque_setitem :: "deque \<Rightarrow> int \<Rightarrow> pyval \<Rightarrow> py_error + deque" where
  "deque_setitem d i v =
     (case deque_index d i of
        Inl e \<Rightarrow> Inl e
      | Inr j \<Rightarrow> Inr (d\<lparr>elems := (elems d)[j := v]\<rparr>))"

text \<open>\<open>list(d)\<close>: a new list of the elements, left to right.\<close>

definition deque_list :: "deque \<Rightarrow> pyval list" where
  "deque_list d = elems d"

section \<open>Queue\<close>

text \<open>
  The class \<open>Queue\<close> is written out twice, in \<open>XSQueue.py\<close> and again, word
  for word, at the end of \<open>XSStack.py\<close>. \<open>XSQueue.py\<close> imports nothing; its
  names \<open>deque\<close> and \<open>Lock\<close> are taken to be the ones \<open>XSStack.py\<close>
  imports from \<open>collections\<close> and \<open>threading\<close>.

  An object of either class has two slots, \<open>_items\<close> and \<open>_lock\<close>. Every method
  body runs inside \<open>with self._lock\<close>, which releases the lock on every way out, so
  between two calls of one thread the lock is always free and only \<open>_items\<close> is
  state. A method returns what it returns or raises, together with the object after the
  call: an exception does not undo what was done before it.
\<close>

record queue =
  q_items :: deque

type_synonym 's result = "(py_error + pyval) \<times> 's"

definition Queue_init :: queue where
  "Queue_init = \<lparr>q_items = deque_new []\<rparr>"

definition enqueue :: "queue \<Rightarrow> pyval \<Rightarrow> queue result" where
  "enqueue q item = (Inr PyNone, q\<lparr>q_items := deque_append (q_items q) item\<rparr>)"

definition dequeue :: "queue \<Rightarrow> queue result" where
  "dequeue q =
     (if \<not> deque_bool (q_items q) then (Inl IndexError, q)
      else (case deque_popleft (q_items q) of
              Inl e \<Rightarrow> (Inl e, q)
            | Inr (x, d) \<Rightarrow> (Inr x, q\<lparr>q_items := d\<rparr>)))"

definition Queue_peek :: "queue \<Rightarrow> queue result" where
  "Queue_peek q =
     (if deque_bool (q_items q)
      then (case deque_getitem (q_items q) 0 of
              Inl e \<Rightarrow> (Inl e, q)
            | Inr v \<Rightarrow> (Inr v, q))
      else (Inr PyNone, q))"

definition Queue_size :: "queue \<Rightarrow> queue result" where
  "Queue_size q = (Inr (PyInt (int (deque_len (q_items q)))), q)"

definition bulk_enqueue :: "queue \<Rightarrow> pyval \<Rightarrow> queue result" where
  "bulk_enqueue q its =
     (if \<not> isinstance_list_tuple its then (Inl TypeError, q)
      else (Inr PyNone, q\<lparr>q_items := deque_extend (q_items q) (seq_items its)\<rparr>))"

text \<open>
  The comprehension \<open>[self._items.popleft() for _ in range(count)]\<close>: one
  \<open>popleft\<close> per round, the results collected in order; a \<open>popleft\<close> that
  raises ends it with the deque as the earlier rounds left it.
\<close>

fun popleft_times :: "nat \<Rightarrow> deque \<Rightarrow> pyval list \<Rightarrow> (py_error + pyval list) \<times> deque" where
  "popleft_times 0 d acc = (Inr acc, d)"
| "popleft_times (Suc n) d acc =
     (case deque_popleft d of
        Inl e \<Rightarrow> (Inl e, d)
      | Inr (x, d') \<Rightarrow> popleft_times n d' (acc @ [x]))"

definition bulk_dequeue :: "queue \<Rightarrow> int \<Rightarrow> queue result" where
  "bulk_dequeue q count =
     (if count \<le> 0 then (Inl ValueError, q)
      else if count > int (deque_len (q_items q)) then (Inl IndexError, q)
      else (case popleft_times (nat count) (q_items q) [] of
              (Inl e, d) \<Rightarrow> (Inl e, q\<lparr>q_items := d\<rparr>)
            | (Inr xs, d) \<Rightarrow> (Inr (PyList xs), q\<lparr>q_items := d\<rparr>)))"

definition Queue_snapshot :: "queue \<Rightarrow> queue result" where
  "Queue_snapshot q = (Inr (PyList (deque_list (q_items q))), q)"

definition Queue_restore :: "queue \<Rightarrow> pyval \<Rightarrow> queue result" where
  "Queue_restore q snapshot =
     (if \<not> isinstance_list snapshot then (Inl TypeError, q)
      else (Inr PyNone, q\<lparr>q_items := deque_new (seq_items snapshot)\<rparr>))"

section \<open>Stack\<close>

text \<open>The top of the stack is the right end of the deque.\<close>

record stack =
  s_items :: deque

definition Stack_init :: stack where
  "Stack_init = \<lparr>s_items = deque_new []\<rparr>"

definition push :: "stack \<Rightarrow> pyval \<Rightarrow> stack result" where
  "push s item = (Inr PyNone, s\<lparr>s_items := deque_append (s_items s) item\<rparr>)"

definition pop :: "stack \<Rightarrow> stack result" where
  "pop s =
     (if \<not> deque_bool (s_items s) then (Inl IndexError, s)
      else (case deque_pop (s_items s) of
              Inl e \<Rightarrow> (Inl e, s)
            | Inr (x, d) \<Rightarrow> (Inr x, s\<lparr>s_items := d\<rparr>)))"

definition Stack_peek :: "stack \<Rightarrow> stack result" where
  "Stack_peek s =
     (if deque_bool (s_items s)
      then (case deque_getitem (s_items s) (- 1) of
              Inl e \<Rightarrow> (Inl e, s)
            | Inr v \<Rightarrow> (Inr v, s))
      else (Inr PyNone, s))"

definition Stack_size :: "stack \<Rightarrow> stack result" where
  "Stack_size s = (Inr (PyInt (int (deque_len (s_items s)))), s)"

definition bulk_push :: "stack \<Rightarrow> pyval \<Rightarrow> stack result" where
  "bulk_push s its =
     (if \<not> isinstance_list_tuple its then (Inl TypeError, s)
      else (Inr PyNone, s\<lparr>s_items := deque_extend (s_items s) (seq_items its)\<rparr>))"

text \<open>The comprehension \<open>[self._items.pop() for _ in range(count)]\<close>.\<close>

fun pop_times :: "nat \<Rightarrow> deque \<Rightarrow> pyval list \<Rightarrow> (py_error + pyval list) \<times> deque" where
  "pop_times 0 d acc = (Inr acc, d)"
| "pop_times (Suc n) d acc =
     (case deque_pop d of
        Inl e \<Rightarrow> (Inl e, d)
      | Inr (x, d') \<Rightarrow> pop_times n d' (acc @ [x]))"

definition bulk_pop :: "stack \<Rightarrow> int \<Rightarrow> stack result" where
  "bulk_pop s count =
     (if count \<le> 0 then (Inl ValueError, s)
      else if count > int (deque_len (s_items s)) then (Inl IndexError, s)
      else (case pop_times (nat count) (s_items s) [] of
              (Inl e, d) \<Rightarrow> (Inl e, s\<lparr>s_items := d\<rparr>)
            | (Inr xs, d) \<Rightarrow> (Inr (PyList xs), s\<lparr>s_items := d\<rparr>)))"

definition Stack_snapshot :: "stack \<Rightarrow> stack result" where
  "Stack_snapshot s = (Inr (PyList (deque_list (s_items s))), s)"

definition Stack_restore :: "stack \<Rightarrow> pyval \<Rightarrow> stack result" where
  "Stack_restore s snapshot =
     (if \<not> isinstance_list snapshot then (Inl TypeError, s)
      else (Inr PyNone, s\<lparr>s_items := deque_new (seq_items snapshot)\<rparr>))"

definition duplicate_top :: "stack \<Rightarrow> stack result" where
  "duplicate_top s =
     (if \<not> deque_bool (s_items s) then (Inl IndexError, s)
      else (case deque_getitem (s_items s) (- 1) of
              Inl e \<Rightarrow> (Inl e, s)
            | Inr v \<Rightarrow> (Inr PyNone, s\<lparr>s_items := deque_append (s_items s) v\<rparr>)))"

text \<open>
  \<open>self._items[-1], self._items[-2] = self._items[-2], self._items[-1]\<close>: the right
  side is read first, left to right, then the two targets are assigned, left to right.
\<close>

definition swap_top :: "stack \<Rightarrow> stack result" where
  "swap_top s =
     (if deque_len (s_items s) < 2 then (Inl IndexError, s)
      else (case deque_getitem (s_items s) (- 2) of
              Inl e \<Rightarrow> (Inl e, s)
            | Inr a \<Rightarrow>
          (case deque_getitem (s_items s) (- 1) of
              Inl e \<Rightarrow> (Inl e, s)
            | Inr b \<Rightarrow>
          (case deque_setitem (s_items s) (- 1) a of
              Inl e \<Rightarrow> (Inl e, s)
            | Inr d1 \<Rightarrow>
          (case deque_setitem d1 (- 2) b of
              Inl e \<Rightarrow> (Inl e, s\<lparr>s_items := d1\<rparr>)
            | Inr d2 \<Rightarrow> (Inr PyNone, s\<lparr>s_items := d2\<rparr>))))))"

section \<open>Iteration\<close>

text \<open>
  \<open>Queue.__iter__\<close> returns \<open>iter(self._items)\<close> and \<open>Stack.__iter__\<close>
  returns \<open>iter(reversed(self._items))\<close>: an iterator object of the deque itself,
  made while the lock is held and consumed after it is released. Such an iterator keeps
  no items. It records the deque's \<open>state\<close> and length when it is made, and each
  \<open>next\<close> reads the deque as it is at that moment: it raises \<open>RuntimeError\<close>
  when \<open>state\<close> has moved and otherwise yields the element now at its position.
  So \<open>next\<close> takes the iterator and the present value of the deque it was made
  from. Every method but \<open>restore\<close> works on that one deque object in place, so
  after such calls the present value is the \<open>_items\<close> of the container after them.

  The forward iterator compares \<open>state\<close> before it looks at its counter, the
  reverse iterator after.
\<close>

record dequeiter =
  it_state :: nat
  it_counter :: nat
  it_index :: nat
  it_reverse :: bool

definition deque_iter :: "deque \<Rightarrow> dequeiter" where
  "deque_iter d =
     \<lparr>it_state = state d, it_counter = deque_len d, it_index = 0, it_reverse = False\<rparr>"

definition deque_reversed :: "deque \<Rightarrow> dequeiter" where
  "deque_reversed d =
     \<lparr>it_state = state d, it_counter = deque_len d, it_index = deque_len d - 1,
      it_reverse = True\<rparr>"

definition dequeiter_next :: "dequeiter \<Rightarrow> deque \<Rightarrow> (py_error + pyval) \<times> dequeiter" where
  "dequeiter_next it d =
     (if state d \<noteq> it_state it then (Inl RuntimeError, it\<lparr>it_counter := 0\<rparr>)
      else if it_counter it = 0 then (Inl StopIteration, it)
      else (case deque_getitem d (int (it_index it)) of
              Inl e \<Rightarrow> (Inl e, it)
            | Inr v \<Rightarrow>
                (Inr v, it\<lparr>it_index := Suc (it_index it), it_counter := it_counter it - 1\<rparr>)))"

definition dequereviter_next :: "dequeiter \<Rightarrow> deque \<Rightarrow> (py_error + pyval) \<times> dequeiter" where
  "dequereviter_next it d =
     (if it_counter it = 0 then (Inl StopIteration, it)
      else if state d \<noteq> it_state it then (Inl RuntimeError, it\<lparr>it_counter := 0\<rparr>)
      else (case deque_getitem d (int (it_index it)) of
              Inl e \<Rightarrow> (Inl e, it)
            | Inr v \<Rightarrow>
                (Inr v, it\<lparr>it_index := it_index it - 1, it_counter := it_counter it - 1\<rparr>)))"

definition iter_next :: "dequeiter \<Rightarrow> deque \<Rightarrow> (py_error + pyval) \<times> dequeiter" where
  "iter_next it d = (if it_reverse it then dequereviter_next it d else dequeiter_next it d)"

text \<open>
  \<open>list(it)\<close>, or a \<open>for\<close> loop that collects: \<open>next\<close> until
  \<open>StopIteration\<close>; any other exception ends the loop and is the outcome.
\<close>

function list_of_iter :: "dequeiter \<Rightarrow> deque \<Rightarrow> py_error + pyval list" where
  "list_of_iter it d =
     (case iter_next it d of
        (Inl e, it') \<Rightarrow> (if e = StopIteration then Inr [] else Inl e)
      | (Inr v, it') \<Rightarrow>
          (case list_of_iter it' d of
             Inl e \<Rightarrow> Inl e
           | Inr vs \<Rightarrow> Inr (v # vs)))"
  by pat_completeness auto
termination
  by (relation "measure (\<lambda>(it, d). it_counter it)")
     (auto simp: iter_next_def dequeiter_next_def dequereviter_next_def
           split: if_splits sum.splits)

declare list_of_iter.simps [simp del]

definition Queue_iter :: "queue \<Rightarrow> dequeiter" where
  "Queue_iter q = deque_iter (q_items q)"

definition Stack_iter :: "stack \<Rightarrow> dequeiter" where
  "Stack_iter s = deque_reversed (s_items s)"

text \<open>
  What the specification describes instead: the contents are copied when the iterator is
  made, and the iteration runs over the copy, which nothing else can reach.
\<close>

definition Queue_iter_copy :: "queue \<Rightarrow> py_error + pyval list" where
  "Queue_iter_copy q =
     (let c = deque_new (deque_list (q_items q)) in list_of_iter (deque_iter c) c)"

definition Stack_iter_copy :: "stack \<Rightarrow> py_error + pyval list" where
  "Stack_iter_copy s =
     (let c = deque_new (deque_list (s_items s)) in list_of_iter (deque_reversed c) c)"

section \<open>Call sequences\<close>

text \<open>
  \<open>enqueue_each xs q\<close> calls \<open>enqueue\<close> on each item of \<open>xs\<close> in order;
  \<open>dequeue_repeat n q\<close> calls \<open>dequeue\<close> \<open>n\<close> times and collects what the calls
  return. Either stops at the first call that raises.
\<close>

fun enqueue_each :: "pyval list \<Rightarrow> queue \<Rightarrow> queue result" where
  "enqueue_each [] q = (Inr PyNone, q)"
| "enqueue_each (x # xs) q =
     (case enqueue q x of
        (Inl e, q') \<Rightarrow> (Inl e, q')
      | (Inr r, q') \<Rightarrow> enqueue_each xs q')"

fun dequeue_repeat :: "nat \<Rightarrow> queue \<Rightarrow> (py_error + pyval list) \<times> queue" where
  "dequeue_repeat 0 q = (Inr [], q)"
| "dequeue_repeat (Suc n) q =
     (case dequeue q of
        (Inl e, q') \<Rightarrow> (Inl e, q')
      | (Inr x, q') \<Rightarrow>
          (case dequeue_repeat n q' of
             (Inl e, q'') \<Rightarrow> (Inl e, q'')
           | (Inr xs, q'') \<Rightarrow> (Inr (x # xs), q'')))"

text \<open>
  \<open>fifo_run q xs\<close>: on the queue \<open>q\<close>, one \<open>enqueue\<close> per item of
  \<open>xs\<close>, then as many calls of \<open>dequeue\<close>.
\<close>

definition fifo_run :: "queue \<Rightarrow> pyval list \<Rightarrow> (py_error + pyval list) \<times> queue" where
  "fifo_run q xs =
     (case enqueue_each xs q of
        (Inl e, q') \<Rightarrow> (Inl e, q')
      | (Inr r, q') \<Rightarrow> dequeue_repeat (length xs) q')"

text \<open>The same for the stack, with \<open>push\<close> and \<open>pop\<close>.\<close>

fun push_each :: "pyval list \<Rightarrow> stack \<Rightarrow> stack result" where
  "push_each [] s = (Inr PyNone, s)"
| "push_each (x # xs) s =
     (case push s x of
        (Inl e, s') \<Rightarrow> (Inl e, s')
      | (Inr r, s') \<Rightarrow> push_each xs s')"

fun pop_repeat :: "nat \<Rightarrow> stack \<Rightarrow> (py_error + pyval list) \<times> stack" where
  "pop_repeat 0 s = (Inr [], s)"
| "pop_repeat (Suc n) s =
     (case pop s of
        (Inl e, s') \<Rightarrow> (Inl e, s')
      | (Inr x, s') \<Rightarrow>
          (case pop_repeat n s' of
             (Inl e, s'') \<Rightarrow> (Inl e, s'')
           | (Inr xs, s'') \<Rightarrow> (Inr (x # xs), s'')))"

definition lifo_run :: "stack \<Rightarrow> pyval list \<Rightarrow> (py_error + pyval list) \<times> stack" where
  "lifo_run s xs =
     (case push_each xs s of
        (Inl e, s') \<Rightarrow> (Inl e, s')
      | (Inr r, s') \<Rightarrow> pop_repeat (length xs) s')"

text \<open>\<open>restore(snapshot())\<close> on one container.\<close>

definition Queue_snapshot_restore :: "queue \<Rightarrow> queue result" where
  "Queue_snapshot_restore q =
     (case Queue_snapshot q of
        (Inl e, q') \<Rightarrow> (Inl e, q')
      | (Inr v, q') \<Rightarrow> Queue_restore q' v)"

definition Stack_snapshot_restore :: "stack \<Rightarrow> stack result" where
  "Stack_snapshot_restore s =
     (case Stack_snapshot s of
        (Inl e, s') \<Rightarrow> (Inl e, s')
      | (Inr v, s') \<Rightarrow> Stack_restore s' v)"

section \<open>Properties of the queue\<close>

lemma elems_enqueue_each:
  "\<exists>q'. enqueue_each xs q = (Inr PyNone, q') \<and> elems (q_items q') = elems (q_items q) @ xs"
proof (induction xs arbitrary: q)
  case Nil
  show ?case by simp
next
  case (Cons x xs)
  obtain q' where q': "enqueue_each xs (q\<lparr>q_items := deque_append (q_items q) x\<rparr>) = (Inr PyNone, q')"
    and e: "elems (q_items q') = elems (q_items (q\<lparr>q_items := deque_append (q_items q) x\<rparr>)) @ xs"
    using Cons.IH by blast
  from q' e show ?case by (simp add: enqueue_def deque_append_def)
qed

lemma dequeue_repeat_prefix:
  "n \<le> length (elems (q_items q)) \<Longrightarrow>
   \<exists>q'. dequeue_repeat n q = (Inr (take n (elems (q_items q))), q')
        \<and> elems (q_items q') = drop n (elems (q_items q))"
proof (induction n arbitrary: q)
  case 0
  show ?case by simp
next
  case (Suc n)
  then obtain y ys where ys: "elems (q_items q) = y # ys"
    by (cases "elems (q_items q)") auto
  let ?q1 = "q\<lparr>q_items := \<lparr>elems = ys, state = Suc (state (q_items q))\<rparr>\<rparr>"
  have d: "dequeue q = (Inr y, ?q1)"
    using ys by (simp add: dequeue_def deque_bool_def deque_len_def deque_popleft_def)
  have "n \<le> length (elems (q_items ?q1))" using Suc.prems ys by simp
  from Suc.IH [OF this] obtain q' where
    q': "dequeue_repeat n ?q1 = (Inr (take n ys), q')" and e: "elems (q_items q') = drop n ys"
    by auto
  show ?case using d q' e ys by simp
qed

text \<open>
  From any queue, the calls of \<open>fifo_run\<close> all succeed and return the first
  \<open>length xs\<close> items of the old contents followed by \<open>xs\<close>: items that were
  waiting come out before the new ones.
\<close>

lemma fifo_run_prefix:
  "fst (fifo_run q xs) = Inr (take (length xs) (elems (q_items q) @ xs)) \<and>
   elems (q_items (snd (fifo_run q xs))) = drop (length xs) (elems (q_items q) @ xs)"
proof -
  obtain q1 where q1: "enqueue_each xs q = (Inr PyNone, q1)"
    and e: "elems (q_items q1) = elems (q_items q) @ xs"
    using elems_enqueue_each by blast
  have "length xs \<le> length (elems (q_items q1))" using e by simp
  from dequeue_repeat_prefix [OF this] obtain q2 where
    "dequeue_repeat (length xs) q1 = (Inr (take (length xs) (elems (q_items q1))), q2)"
    "elems (q_items q2) = drop (length xs) (elems (q_items q1))"
    by auto
  then show ?thesis using q1 e by (simp add: fifo_run_def)
qed

text \<open>
  C1 (FIFO law). On a queue that is empty, a new one in particular, enqueueing the items
  of any list \<open>xs\<close> one by one and then dequeueing \<open>length xs\<close> times
  succeeds, returns exactly \<open>xs\<close> in the order of insertion, and leaves the queue
  empty.
\<close>

theorem fifo_law:
  "elems (q_items q) = [] \<Longrightarrow>
   fst (fifo_run q xs) = Inr xs \<and> elems (q_items (snd (fifo_run q xs))) = []"
  using fifo_run_prefix [of q xs] by simp

theorem fifo_law_witness:
  "elems (q_items Queue_init) = [] \<and>
   fst (fifo_run Queue_init [PyInt 1, PyInt 2, PyInt 3]) = Inr [PyInt 1, PyInt 2, PyInt 3] \<and>
   elems (q_items (snd (fifo_run Queue_init [PyInt 1, PyInt 2, PyInt 3]))) = []"
  using fifo_law [of Queue_init "[PyInt 1, PyInt 2, PyInt 3]"]
  by (simp add: Queue_init_def deque_new_def)

section \<open>Properties of the stack\<close>

lemma elems_push_each:
  "\<exists>s'. push_each xs s = (Inr PyNone, s') \<and> elems (s_items s') = elems (s_items s) @ xs"
proof (induction xs arbitrary: s)
  case Nil
  show ?case by simp
next
  case (Cons x xs)
  obtain s' where s': "push_each xs (s\<lparr>s_items := deque_append (s_items s) x\<rparr>) = (Inr PyNone, s')"
    and e: "elems (s_items s') = elems (s_items (s\<lparr>s_items := deque_append (s_items s) x\<rparr>)) @ xs"
    using Cons.IH by blast
  from s' e show ?case by (simp add: push_def deque_append_def)
qed

lemma pop_repeat_suffix:
  "n \<le> length (elems (s_items s)) \<Longrightarrow>
   \<exists>s'. pop_repeat n s = (Inr (take n (rev (elems (s_items s)))), s')
        \<and> elems (s_items s') = rev (drop n (rev (elems (s_items s))))"
proof (induction n arbitrary: s)
  case 0
  show ?case by simp
next
  case (Suc n)
  then have "elems (s_items s) \<noteq> []" by auto
  then obtain ys y where ys: "elems (s_items s) = ys @ [y]"
    by (metis rev_exhaust)
  let ?s1 = "s\<lparr>s_items := \<lparr>elems = ys, state = Suc (state (s_items s))\<rparr>\<rparr>"
  have p: "pop s = (Inr y, ?s1)"
    using ys by (simp add: pop_def deque_bool_def deque_len_def deque_pop_def)
  have "n \<le> length (elems (s_items ?s1))" using Suc.prems ys by simp
  from Suc.IH [OF this] obtain s' where
    s': "pop_repeat n ?s1 = (Inr (take n (rev ys)), s')" and e: "elems (s_items s') = rev (drop n (rev ys))"
    by auto
  show ?case using p s' e ys by simp
qed

text \<open>
  C2 (LIFO law). On any stack, a new one in particular, pushing the items of any list
  \<open>xs\<close> one by one and then popping \<open>length xs\<close> times succeeds, returns
  the items in the reverse of the order of insertion, and leaves the stack with the
  contents it had before.
\<close>

theorem lifo_law:
  "fst (lifo_run s xs) = Inr (rev xs) \<and>
   elems (s_items (snd (lifo_run s xs))) = elems (s_items s)"
proof -
  obtain s1 where s1: "push_each xs s = (Inr PyNone, s1)"
    and e: "elems (s_items s1) = elems (s_items s) @ xs"
    using elems_push_each by blast
  have "length xs \<le> length (elems (s_items s1))" using e by simp
  from pop_repeat_suffix [OF this] obtain s2 where
    "pop_repeat (length xs) s1 = (Inr (take (length xs) (rev (elems (s_items s1)))), s2)"
    "elems (s_items s2) = rev (drop (length xs) (rev (elems (s_items s1))))"
    by auto
  then show ?thesis using s1 e by (simp add: lifo_run_def)
qed

section \<open>Failures of removal\<close>

text \<open>
  C3. \<open>dequeue\<close> and \<open>pop\<close> on an empty container raise \<open>IndexError\<close>
  (EmptyContainer). \<open>bulk_dequeue\<close> and \<open>bulk_pop\<close> raise \<open>ValueError\<close>
  (InvalidArgument) for a count \<open>n \<le> 0\<close> and \<open>IndexError\<close> (EmptyContainer) for
  a count \<open>m\<close> above the current size. In each case the container after the call is
  the container before it: nothing has been removed.
\<close>

theorem empty_and_bulk_failures:
  "(elems (q_items q0) = [] \<longrightarrow> dequeue q0 = (Inl IndexError, q0)) \<and>
   (elems (s_items s0) = [] \<longrightarrow> pop s0 = (Inl IndexError, s0)) \<and>
   (n \<le> 0 \<longrightarrow> bulk_dequeue q n = (Inl ValueError, q) \<and> bulk_pop s n = (Inl ValueError, s)) \<and>
   (int (length (elems (q_items q))) < m \<longrightarrow> bulk_dequeue q m = (Inl IndexError, q)) \<and>
   (int (length (elems (s_items s))) < m \<longrightarrow> bulk_pop s m = (Inl IndexError, s)) \<and>
   spec_error IndexError = Some EmptyContainer \<and>
   spec_error ValueError = Some InvalidArgument"
  by (simp add: dequeue_def pop_def bulk_dequeue_def bulk_pop_def deque_bool_def deque_len_def)

theorem empty_and_bulk_failures_witness:
  "dequeue Queue_init = (Inl IndexError, Queue_init) \<and>
   pop Stack_init = (Inl IndexError, Stack_init) \<and>
   bulk_dequeue (snd (enqueue Queue_init (PyInt 1))) 0
     = (Inl ValueError, snd (enqueue Queue_init (PyInt 1))) \<and>
   bulk_pop (snd (push Stack_init (PyInt 1))) 0
     = (Inl ValueError, snd (push Stack_init (PyInt 1))) \<and>
   bulk_dequeue (snd (enqueue Queue_init (PyInt 1))) 2
     = (Inl IndexError, snd (enqueue Queue_init (PyInt 1))) \<and>
   bulk_pop (snd (push Stack_init (PyInt 1))) 2
     = (Inl IndexError, snd (push Stack_init (PyInt 1)))"
  using empty_and_bulk_failures [of Queue_init Stack_init 0
      "snd (enqueue Queue_init (PyInt 1))" "snd (push Stack_init (PyInt 1))" 2]
  by (simp add: Queue_init_def Stack_init_def deque_new_def enqueue_def push_def deque_append_def)

section \<open>Bulk removal\<close>

text \<open>
  With a count between 1 and the size the comprehension never meets an empty deque: it
  returns the first (for the stack: the last, topmost first) \<open>n\<close> elements and
  leaves the rest.
\<close>

lemma popleft_times_ok:
  "n \<le> length (elems d) \<Longrightarrow>
   popleft_times n d acc = (Inr (acc @ take n (elems d)), \<lparr>elems = drop n (elems d), state = state d + n\<rparr>)"
proof (induction n arbitrary: d acc)
  case 0
  show ?case by simp
next
  case (Suc n)
  then obtain y ys where ys: "elems d = y # ys" by (cases "elems d") auto
  have "n \<le> length (elems \<lparr>elems = ys, state = Suc (state d)\<rparr>)"
    using Suc.prems ys by simp
  from Suc.IH [OF this] show ?case using ys by (simp add: deque_popleft_def)
qed

lemma pop_times_ok:
  "n \<le> length (elems d) \<Longrightarrow>
   pop_times n d acc = (Inr (acc @ take n (rev (elems d))), \<lparr>elems = rev (drop n (rev (elems d))), state = state d + n\<rparr>)"
proof (induction n arbitrary: d acc)
  case 0
  show ?case by simp
next
  case (Suc n)
  then have ne: "elems d \<noteq> []" by auto
  then obtain ys y where ys: "elems d = ys @ [y]" by (metis rev_exhaust)
  have "n \<le> length (elems \<lparr>elems = ys, state = Suc (state d)\<rparr>)"
    using Suc.prems ys by simp
  from Suc.IH [OF this] show ?case using ys by (simp add: deque_pop_def)
qed

lemma bulk_dequeue_ok:
  assumes "0 < n" "n \<le> int (length (elems (q_items q)))"
  shows "bulk_dequeue q n =
    (Inr (PyList (take (nat n) (elems (q_items q)))),
     q\<lparr>q_items := \<lparr>elems = drop (nat n) (elems (q_items q)), state = state (q_items q) + nat n\<rparr>\<rparr>)"
proof -
  have "nat n \<le> length (elems (q_items q))" using assms by linarith
  from popleft_times_ok [OF this, of "[]"] show ?thesis
    using assms by (simp add: bulk_dequeue_def deque_len_def)
qed

lemma bulk_pop_ok:
  assumes "0 < n" "n \<le> int (length (elems (s_items s)))"
  shows "bulk_pop s n =
    (Inr (PyList (take (nat n) (rev (elems (s_items s))))),
     s\<lparr>s_items := \<lparr>elems = rev (drop (nat n) (rev (elems (s_items s)))), state = state (s_items s) + nat n\<rparr>\<rparr>)"
proof -
  have "nat n \<le> length (elems (s_items s))" using assms by linarith
  from pop_times_ok [OF this, of "[]"] show ?thesis
    using assms by (simp add: bulk_pop_def deque_len_def)
qed

lemma bulk_dequeue_cases:
  "fst (bulk_dequeue q n) =
     (if n \<le> 0 then Inl ValueError
      else if int (length (elems (q_items q))) < n then Inl IndexError
      else Inr (PyList (take (nat n) (elems (q_items q)))))"
proof (cases "0 < n \<and> n \<le> int (length (elems (q_items q)))")
  case True
  then show ?thesis using bulk_dequeue_ok [of n q] by simp
next
  case False
  then show ?thesis by (auto simp: bulk_dequeue_def deque_len_def)
qed

lemma bulk_pop_cases:
  "fst (bulk_pop s n) =
     (if n \<le> 0 then Inl ValueError
      else if int (length (elems (s_items s))) < n then Inl IndexError
      else Inr (PyList (take (nat n) (rev (elems (s_items s))))))"
proof (cases "0 < n \<and> n \<le> int (length (elems (s_items s)))")
  case True
  then show ?thesis using bulk_pop_ok [of n s] by simp
next
  case False
  then show ?thesis by (auto simp: bulk_pop_def deque_len_def)
qed

text \<open>
  C4, as stated, fails. A count above the current size does not raise an exception of
  the kind InvalidArgument: on a queue or a stack holding one item, a bulk removal of two
  raises \<open>IndexError\<close>, the exception of the empty container.
\<close>

theorem bulk_count_above_size_counterexample:
  "bulk_dequeue (snd (enqueue Queue_init (PyInt 1))) 2
     = (Inl IndexError, snd (enqueue Queue_init (PyInt 1))) \<and>
   bulk_pop (snd (push Stack_init (PyInt 1))) 2
     = (Inl IndexError, snd (push Stack_init (PyInt 1))) \<and>
   spec_error IndexError \<noteq> Some InvalidArgument"
  by (simp add: bulk_dequeue_def bulk_pop_def Queue_init_def Stack_init_def deque_new_def
        enqueue_def push_def deque_append_def deque_len_def)

text \<open>
  C4, amended. A bulk removal whose count \<open>m\<close> exceeds the current size fails
  with an exception of the kind EmptyContainer and leaves the container as it was. Bulk
  removal fails with an exception of the kind InvalidArgument exactly when the count is
  not positive.
\<close>

theorem bulk_count_above_size:
  "(int (length (elems (q_items q))) < m \<longrightarrow>
      (\<exists>e. bulk_dequeue q m = (Inl e, q) \<and> spec_error e = Some EmptyContainer)) \<and>
   (int (length (elems (s_items s))) < m \<longrightarrow>
      (\<exists>e. bulk_pop s m = (Inl e, s) \<and> spec_error e = Some EmptyContainer)) \<and>
   ((\<exists>e. fst (bulk_dequeue q n) = Inl e \<and> spec_error e = Some InvalidArgument) = (n \<le> 0)) \<and>
   ((\<exists>e. fst (bulk_pop s n) = Inl e \<and> spec_error e = Some InvalidArgument) = (n \<le> 0))"
proof -
  have a: "int (length (elems (q_items q))) < m \<longrightarrow>
      (\<exists>e. bulk_dequeue q m = (Inl e, q) \<and> spec_error e = Some EmptyContainer)"
    by (simp add: bulk_dequeue_def deque_len_def)
  have b: "int (length (elems (s_items s))) < m \<longrightarrow>
      (\<exists>e. bulk_pop s m = (Inl e, s) \<and> spec_error e = Some EmptyContainer)"
    by (simp add: bulk_pop_def deque_len_def)
  have c: "(\<exists>e. fst (bulk_dequeue q n) = Inl e \<and> spec_error e = Some InvalidArgument) = (n \<le> 0)"
    by (simp add: bulk_dequeue_cases)
  have d: "(\<exists>e. fst (bulk_pop s n) = Inl e \<and> spec_error e = Some InvalidArgument) = (n \<le> 0)"
    by (simp add: bulk_pop_cases)
  from a b c d show ?thesis by blast
qed

theorem bulk_count_above_size_witness:
  "(\<exists>e. bulk_dequeue (snd (enqueue Queue_init (PyInt 1))) 2
           = (Inl e, snd (enqueue Queue_init (PyInt 1))) \<and> spec_error e = Some EmptyContainer) \<and>
   (\<exists>e. bulk_pop (snd (push Stack_init (PyInt 1))) 2
           = (Inl e, snd (push Stack_init (PyInt 1))) \<and> spec_error e = Some EmptyContainer)"
  using bulk_count_above_size [of "snd (enqueue Queue_init (PyInt 1))" 2
      "snd (push Stack_init (PyInt 1))" 0]
  by (simp add: Queue_init_def Stack_init_def deque_new_def enqueue_def push_def deque_append_def)

section \<open>Snapshots, bulk insertion and the top of the stack\<close>

text \<open>Facts about the deque that the methods below rest on.\<close>

lemma elems_deque_extend: "elems (deque_extend d xs) = elems d @ xs"
  unfolding deque_extend_def
  by (induction xs arbitrary: d) (simp_all add: deque_append_def)

lemma deque_getitem_first:
  "elems d = x # xs \<Longrightarrow> deque_getitem d 0 = Inr x"
  by (simp add: deque_getitem_def deque_index_def deque_len_def)

lemma deque_getitem_last:
  "elems d = ys @ [y] \<Longrightarrow> deque_getitem d (- 1) = Inr y"
  by (simp add: deque_getitem_def deque_index_def deque_len_def nat_add_distrib)

lemma deque_index_last:
  "elems d = ys @ [y] \<Longrightarrow> deque_index d (- 1) = Inr (length ys)"
  by (simp add: deque_index_def deque_len_def)

lemma deque_index_last_but_one:
  "elems d = ys @ [a, b] \<Longrightarrow> deque_index d (- 2) = Inr (length ys)"
  by (simp add: deque_index_def deque_len_def)

text \<open>
  C5. On any queue or stack, \<open>snapshot()\<close> returns the list of the contents, first
  element first (head to tail, bottom to top), and passing that list straight to
  \<open>restore\<close> succeeds and leaves the contents as they were.
\<close>

theorem snapshot_restore_identity:
  "fst (Queue_snapshot q) = Inr (PyList (elems (q_items q))) \<and>
   fst (Queue_snapshot_restore q) = Inr PyNone \<and>
   elems (q_items (snd (Queue_snapshot_restore q))) = elems (q_items q) \<and>
   fst (Stack_snapshot s) = Inr (PyList (elems (s_items s))) \<and>
   fst (Stack_snapshot_restore s) = Inr PyNone \<and>
   elems (s_items (snd (Stack_snapshot_restore s))) = elems (s_items s)"
  by (simp add: Queue_snapshot_restore_def Queue_snapshot_def Queue_restore_def
        Stack_snapshot_restore_def Stack_snapshot_def Stack_restore_def
        deque_list_def deque_new_def)

text \<open>
  C6, as stated, fails. A tuple is an ordered sequence of items, and \<open>restore\<close>
  rejects it: the method accepts instances of \<open>list\<close> only.
\<close>

theorem restore_tuple_counterexample:
  "Queue_restore Queue_init (PyTuple [PyInt 1, PyInt 2]) = (Inl TypeError, Queue_init) \<and>
   Stack_restore Stack_init (PyTuple [PyInt 1, PyInt 2]) = (Inl TypeError, Stack_init)"
  by (simp add: Queue_restore_def Stack_restore_def)

text \<open>
  C6, amended. \<open>restore\<close> raises \<open>TypeError\<close> (InvalidArgument) for every argument
  that is not a list, a tuple among them, and leaves the container as it was; given a
  list it succeeds and the contents become the items of the list, in its order.
  \<open>bulk_enqueue\<close> and \<open>bulk_push\<close> raise \<open>TypeError\<close> for every argument that is
  neither a list nor a tuple and leave the container as it was; given a list or a tuple
  they succeed and the items are appended in the given order.
\<close>

theorem restore_and_bulk_insert:
  "(\<not> isinstance_list v \<longrightarrow>
      Queue_restore q v = (Inl TypeError, q) \<and> Stack_restore s v = (Inl TypeError, s)) \<and>
   \<not> isinstance_list (PyTuple xs) \<and>
   fst (Queue_restore q (PyList xs)) = Inr PyNone \<and>
   elems (q_items (snd (Queue_restore q (PyList xs)))) = xs \<and>
   fst (Stack_restore s (PyList xs)) = Inr PyNone \<and>
   elems (s_items (snd (Stack_restore s (PyList xs)))) = xs \<and>
   (\<not> isinstance_list_tuple w \<longrightarrow>
      bulk_enqueue q w = (Inl TypeError, q) \<and> bulk_push s w = (Inl TypeError, s)) \<and>
   (u = PyList xs \<or> u = PyTuple xs \<longrightarrow>
      fst (bulk_enqueue q u) = Inr PyNone \<and>
      elems (q_items (snd (bulk_enqueue q u))) = elems (q_items q) @ xs \<and>
      fst (bulk_push s u) = Inr PyNone \<and>
      elems (s_items (snd (bulk_push s u))) = elems (s_items s) @ xs) \<and>
   spec_error TypeError = Some InvalidArgument"
  by (auto simp: Queue_restore_def Stack_restore_def bulk_enqueue_def bulk_push_def
        deque_new_def elems_deque_extend)

theorem restore_and_bulk_insert_witness:
  "Queue_restore Queue_init (PyTuple [PyInt 1]) = (Inl TypeError, Queue_init) \<and>
   Stack_restore Stack_init (PyTuple [PyInt 1]) = (Inl TypeError, Stack_init) \<and>
   bulk_enqueue Queue_init (PyStr ''ab'') = (Inl TypeError, Queue_init) \<and>
   bulk_push Stack_init (PyStr ''ab'') = (Inl TypeError, Stack_init) \<and>
   fst (bulk_enqueue Queue_init (PyTuple [PyInt 1, PyNone])) = Inr PyNone \<and>
   elems (q_items (snd (bulk_enqueue Queue_init (PyTuple [PyInt 1, PyNone])))) = [PyInt 1, PyNone] \<and>
   fst (bulk_push Stack_init (PyTuple [PyInt 1, PyNone])) = Inr PyNone \<and>
   elems (s_items (snd (bulk_push Stack_init (PyTuple [PyInt 1, PyNone])))) = [PyInt 1, PyNone]"
  using restore_and_bulk_insert [of "PyTuple [PyInt 1]" Queue_init Stack_init
      "[PyInt 1, PyNone]" "PyStr ''ab''" "PyTuple [PyInt 1, PyNone]"]
  by (simp add: Queue_init_def Stack_init_def deque_new_def)

text \<open>
  C8. On a stack of at least two items \<open>swap_top\<close> succeeds: the contents
  \<open>ys @ [a, b]\<close> become \<open>ys @ [b, a]\<close>, so the two topmost items change places,
  everything below them stays, and the size is the same. On a stack of fewer than two
  items it raises \<open>IndexError\<close> (EmptyContainer) and the stack is as before.
\<close>

theorem swap_top_frame:
  "(2 \<le> length (elems (s_items s)) \<longrightarrow>
      (\<exists>ys a b. elems (s_items s) = ys @ [a, b] \<and>
         fst (swap_top s) = Inr PyNone \<and>
         elems (s_items (snd (swap_top s))) = ys @ [b, a] \<and>
         fst (Stack_size (snd (swap_top s))) = fst (Stack_size s))) \<and>
   (length (elems (s_items s0)) < 2 \<longrightarrow> swap_top s0 = (Inl IndexError, s0)) \<and>
   spec_error IndexError = Some EmptyContainer"
proof -
  have a: "2 \<le> length (elems (s_items s)) \<longrightarrow>
      (\<exists>ys a b. elems (s_items s) = ys @ [a, b] \<and>
         fst (swap_top s) = Inr PyNone \<and>
         elems (s_items (snd (swap_top s))) = ys @ [b, a] \<and>
         fst (Stack_size (snd (swap_top s))) = fst (Stack_size s))"
  proof
    assume len: "2 \<le> length (elems (s_items s))"
    then have "elems (s_items s) \<noteq> []" by auto
    then obtain zs b where zs: "elems (s_items s) = zs @ [b]" by (metis rev_exhaust)
    with len have "zs \<noteq> []" by auto
    then obtain ys a where ys: "zs = ys @ [a]" by (metis rev_exhaust)
    have e: "elems (s_items s) = ys @ [a, b]" using zs ys by simp
    have e': "elems (s_items s) = (ys @ [a]) @ [b]" using e by simp
    have g2: "deque_getitem (s_items s) (- 2) = Inr a"
      using deque_index_last_but_one [OF e] e by (simp add: deque_getitem_def)
    have g1: "deque_getitem (s_items s) (- 1) = Inr b"
      using deque_getitem_last [OF e'] .
    let ?d1 = "(s_items s)\<lparr>elems := ys @ [a, a]\<rparr>"
    have s1: "deque_setitem (s_items s) (- 1) a = Inr ?d1"
      using deque_index_last [OF e'] e by (simp add: deque_setitem_def list_update_append)
    have e1: "elems ?d1 = ys @ [a, a]" by simp
    let ?d2 = "(s_items s)\<lparr>elems := ys @ [b, a]\<rparr>"
    have s2: "deque_setitem ?d1 (- 2) b = Inr ?d2"
      using deque_index_last_but_one [OF e1] by (simp add: deque_setitem_def list_update_append)
    have sw: "swap_top s = (Inr PyNone, s\<lparr>s_items := ?d2\<rparr>)"
      using len g2 g1 s1 s2 by (simp add: swap_top_def deque_len_def)
    show "\<exists>ys a b. elems (s_items s) = ys @ [a, b] \<and>
         fst (swap_top s) = Inr PyNone \<and>
         elems (s_items (snd (swap_top s))) = ys @ [b, a] \<and>
         fst (Stack_size (snd (swap_top s))) = fst (Stack_size s)"
      using e sw by (intro exI [of _ ys] exI [of _ a] exI [of _ b])
        (simp add: Stack_size_def deque_len_def)
  qed
  have b: "length (elems (s_items s0)) < 2 \<longrightarrow> swap_top s0 = (Inl IndexError, s0)"
    by (simp add: swap_top_def deque_len_def)
  from a b show ?thesis by simp
qed

theorem swap_top_frame_witness:
  "(\<exists>ys a b. [PyInt 1, PyInt 2, PyInt 3] = ys @ [a, b] \<and>
      fst (swap_top \<lparr>s_items = deque_new [PyInt 1, PyInt 2, PyInt 3]\<rparr>) = Inr PyNone \<and>
      elems (s_items (snd (swap_top \<lparr>s_items = deque_new [PyInt 1, PyInt 2, PyInt 3]\<rparr>)))
        = ys @ [b, a]) \<and>
   swap_top \<lparr>s_items = deque_new [PyInt 1]\<rparr> = (Inl IndexError, \<lparr>s_items = deque_new [PyInt 1]\<rparr>)"
  using swap_top_frame [of "\<lparr>s_items = deque_new [PyInt 1, PyInt 2, PyInt 3]\<rparr>"
      "\<lparr>s_items = deque_new [PyInt 1]\<rparr>"]
  by (simp add: deque_new_def)

text \<open>
  C9. On a non-empty stack \<open>duplicate_top\<close> succeeds and appends the item that is on
  top, so the size grows by one and contents \<open>[x, y]\<close> become \<open>[x, y, y]\<close>. On an
  empty stack it raises \<open>IndexError\<close> (EmptyContainer) and the stack is as before.
\<close>

theorem duplicate_top_pushes_top:
  "(elems (s_items s) \<noteq> [] \<longrightarrow>
      fst (duplicate_top s) = Inr PyNone \<and>
      elems (s_items (snd (duplicate_top s)))
        = elems (s_items s) @ [last (elems (s_items s))] \<and>
      fst (Stack_size (snd (duplicate_top s)))
        = Inr (PyInt (int (length (elems (s_items s))) + 1))) \<and>
   (elems (s_items s1) = [x, y] \<longrightarrow> elems (s_items (snd (duplicate_top s1))) = [x, y, y]) \<and>
   (elems (s_items s0) = [] \<longrightarrow> duplicate_top s0 = (Inl IndexError, s0)) \<and>
   spec_error IndexError = Some EmptyContainer"
proof -
  have a: "elems (s_items t) \<noteq> [] \<Longrightarrow>
      duplicate_top t = (Inr PyNone,
        t\<lparr>s_items := deque_append (s_items t) (last (elems (s_items t)))\<rparr>)" for t
  proof -
    assume "elems (s_items t) \<noteq> []"
    then obtain ys y where ys: "elems (s_items t) = ys @ [y]" by (metis rev_exhaust)
    from deque_getitem_last [OF ys] ys show ?thesis
      by (simp add: duplicate_top_def deque_bool_def deque_len_def)
  qed
  have b: "elems (s_items s1) = [x, y] \<longrightarrow> elems (s_items (snd (duplicate_top s1))) = [x, y, y]"
  proof
    assume e: "elems (s_items s1) = [x, y]"
    then have "elems (s_items s1) \<noteq> []" by simp
    from a [OF this] e show "elems (s_items (snd (duplicate_top s1))) = [x, y, y]"
      by (simp add: deque_append_def)
  qed
  have c: "elems (s_items s0) = [] \<longrightarrow> duplicate_top s0 = (Inl IndexError, s0)"
    by (simp add: duplicate_top_def deque_bool_def deque_len_def)
  from a [of s] b c show ?thesis
    by (simp add: deque_append_def Stack_size_def deque_len_def)
qed

theorem duplicate_top_pushes_top_witness:
  "fst (duplicate_top \<lparr>s_items = deque_new [PyStr ''x'', PyStr ''y'']\<rparr>) = Inr PyNone \<and>
   elems (s_items (snd (duplicate_top \<lparr>s_items = deque_new [PyStr ''x'', PyStr ''y'']\<rparr>)))
     = [PyStr ''x'', PyStr ''y'', PyStr ''y''] \<and>
   duplicate_top Stack_init = (Inl IndexError, Stack_init)"
  using duplicate_top_pushes_top [of "\<lparr>s_items = deque_new [PyStr ''x'', PyStr ''y'']\<rparr>"
      "\<lparr>s_items = deque_new [PyStr ''x'', PyStr ''y'']\<rparr>" "PyStr ''x''" "PyStr ''y''" Stack_init]
  by (simp add: deque_new_def Stack_init_def)

text \<open>
  C10. \<open>peek\<close> never raises and changes nothing, on a queue or on a stack. On an
  empty container it returns \<open>None\<close>, a value of the same type as the items; and on a
  container whose front (for the stack: top) item is \<open>None\<close> it returns \<open>None\<close> as
  well, so the two cases give the same result.
\<close>

theorem peek_none_ambiguous:
  "(\<exists>v. Queue_peek q = (Inr v, q)) \<and>
   (\<exists>v. Stack_peek s = (Inr v, s)) \<and>
   (elems (q_items q0) = [] \<longrightarrow> Queue_peek q0 = (Inr PyNone, q0)) \<and>
   (elems (s_items s0) = [] \<longrightarrow> Stack_peek s0 = (Inr PyNone, s0)) \<and>
   (elems (q_items q1) = PyNone # xs \<longrightarrow> Queue_peek q1 = (Inr PyNone, q1)) \<and>
   (elems (s_items s1) = ys @ [PyNone] \<longrightarrow> Stack_peek s1 = (Inr PyNone, s1))"
proof -
  have qp: "Queue_peek t = (Inr (case elems (q_items t) of [] \<Rightarrow> PyNone | x # zs \<Rightarrow> x), t)" for t
  proof (cases "elems (q_items t)")
    case Nil
    then show ?thesis by (simp add: Queue_peek_def deque_bool_def deque_len_def)
  next
    case (Cons x zs)
    from deque_getitem_first [OF this] Cons show ?thesis
      by (simp add: Queue_peek_def deque_bool_def deque_len_def)
  qed
  have sp: "Stack_peek t = (Inr (if elems (s_items t) = [] then PyNone else last (elems (s_items t))), t)" for t
  proof (cases "elems (s_items t) = []")
    case True
    then show ?thesis by (simp add: Stack_peek_def deque_bool_def deque_len_def)
  next
    case False
    then obtain zs z where zs: "elems (s_items t) = zs @ [z]" by (metis rev_exhaust)
    from deque_getitem_last [OF zs] zs show ?thesis
      by (simp add: Stack_peek_def deque_bool_def deque_len_def)
  qed
  show ?thesis by (simp add: qp sp)
qed

theorem peek_none_ambiguous_witness:
  "Queue_peek Queue_init = (Inr PyNone, Queue_init) \<and>
   Stack_peek Stack_init = (Inr PyNone, Stack_init) \<and>
   Queue_peek \<lparr>q_items = deque_new [PyNone, PyInt 1]\<rparr>
     = (Inr PyNone, \<lparr>q_items = deque_new [PyNone, PyInt 1]\<rparr>) \<and>
   Stack_peek \<lparr>s_items = deque_new [PyInt 1, PyNone]\<rparr>
     = (Inr PyNone, \<lparr>s_items = deque_new [PyInt 1, PyNone]\<rparr>)"
  using peek_none_ambiguous [of Queue_init Stack_init Queue_init Stack_init
      "\<lparr>q_items = deque_new [PyNone, PyInt 1]\<rparr>" "[PyInt 1]"
      "\<lparr>s_items = deque_new [PyInt 1, PyNone]\<rparr>" "[PyInt 1]"]
  by (simp add: Queue_init_def Stack_init_def deque_new_def)

section \<open>Iteration against the live deque\<close>

lemma deque_getitem_nat:
  "i < length (elems d) \<Longrightarrow> deque_getitem d (int i) = Inr (elems d ! i)"
  by (simp add: deque_getitem_def deque_index_def deque_len_def)

lemma list_of_iter_forward:
  "it_state it = state d \<Longrightarrow> \<not> it_reverse it \<Longrightarrow>
   it_index it + it_counter it = length (elems d) \<Longrightarrow>
   list_of_iter it d = Inr (drop (it_index it) (elems d))"
proof (induction "it_counter it" arbitrary: it)
  case 0
  then have "iter_next it d = (Inl StopIteration, it)"
    by (simp add: iter_next_def dequeiter_next_def)
  with 0 show ?case by (simp add: list_of_iter.simps [of it d])
next
  case (Suc n)
  let ?it' = "it\<lparr>it_index := Suc (it_index it), it_counter := it_counter it - 1\<rparr>"
  have i: "it_index it < length (elems d)" using Suc.hyps(2) Suc.prems(3) by linarith
  have nx: "iter_next it d = (Inr (elems d ! it_index it), ?it')"
    using Suc.hyps(2) Suc.prems(1,2) deque_getitem_nat [OF i]
    by (simp add: iter_next_def dequeiter_next_def)
  have "list_of_iter ?it' d = Inr (drop (it_index ?it') (elems d))"
    using Suc.hyps(2) Suc.prems by (intro Suc.hyps(1)) simp_all
  with nx show ?case
    using i by (simp add: list_of_iter.simps [of it d] Cons_nth_drop_Suc)
qed

lemma list_of_iter_reverse:
  "it_state it = state d \<Longrightarrow> it_reverse it \<Longrightarrow>
   it_counter it \<le> length (elems d) \<Longrightarrow> it_index it = it_counter it - 1 \<Longrightarrow>
   list_of_iter it d = Inr (rev (take (it_counter it) (elems d)))"
proof (induction "it_counter it" arbitrary: it)
  case 0
  then have "iter_next it d = (Inl StopIteration, it)"
    by (simp add: iter_next_def dequereviter_next_def)
  with 0 show ?case by (simp add: list_of_iter.simps [of it d])
next
  case (Suc n)
  let ?it' = "it\<lparr>it_index := it_index it - 1, it_counter := it_counter it - 1\<rparr>"
  have ix: "it_index it = n" using Suc.hyps(2) Suc.prems(4) by simp
  have i: "it_index it < length (elems d)" using ix Suc.hyps(2) Suc.prems(3) by linarith
  have nx: "iter_next it d = (Inr (elems d ! n), ?it')"
    using Suc.hyps(2) Suc.prems(1,2) deque_getitem_nat [OF i] ix
    by (simp add: iter_next_def dequereviter_next_def)
  have "list_of_iter ?it' d = Inr (rev (take (it_counter ?it') (elems d)))"
    using Suc.hyps(2) Suc.prems ix by (intro Suc.hyps(1)) simp_all
  with nx show ?case
    using i ix Suc.hyps(2) [symmetric]
    by (simp add: list_of_iter.simps [of it d] take_Suc_conv_app_nth)
qed

text \<open>
  Once \<open>state\<close> has moved, the forward iterator raises at the first \<open>next\<close>; the
  reverse iterator does so unless it had nothing left to yield.
\<close>

lemma list_of_iter_forward_mutated:
  "state d \<noteq> it_state it \<Longrightarrow> \<not> it_reverse it \<Longrightarrow> list_of_iter it d = Inl RuntimeError"
  by (simp add: list_of_iter.simps [of it d] iter_next_def dequeiter_next_def)

lemma list_of_iter_reverse_mutated:
  "state d \<noteq> it_state it \<Longrightarrow> it_reverse it \<Longrightarrow>
   list_of_iter it d = (if it_counter it = 0 then Inr [] else Inl RuntimeError)"
  by (simp add: list_of_iter.simps [of it d] iter_next_def dequereviter_next_def)

text \<open>Consumed before any other call, the iterators yield the contents.\<close>

lemma Queue_iter_unmutated:
  "list_of_iter (Queue_iter q) (q_items q) = Inr (elems (q_items q))"
  using list_of_iter_forward [of "Queue_iter q" "q_items q"]
  by (simp add: Queue_iter_def deque_iter_def deque_len_def)

lemma Stack_iter_unmutated:
  "list_of_iter (Stack_iter s) (s_items s) = Inr (rev (elems (s_items s)))"
  using list_of_iter_reverse [of "Stack_iter s" "s_items s"]
  by (simp add: Stack_iter_def deque_reversed_def deque_len_def)

text \<open>Iterating a copy made with the iterator yields the contents of that moment.\<close>

lemma Queue_iter_copy_eq: "Queue_iter_copy q = Inr (elems (q_items q))"
  using list_of_iter_forward [of "deque_iter (deque_new (elems (q_items q)))"
      "deque_new (elems (q_items q))"]
  by (simp add: Queue_iter_copy_def deque_list_def deque_iter_def deque_len_def deque_new_def)

lemma Stack_iter_copy_eq: "Stack_iter_copy s = Inr (rev (elems (s_items s)))"
  using list_of_iter_reverse [of "deque_reversed (deque_new (elems (s_items s)))"
      "deque_new (elems (s_items s))"]
  by (simp add: Stack_iter_copy_def deque_list_def deque_reversed_def deque_len_def deque_new_def)

text \<open>An \<open>enqueue\<close> or \<open>push\<close> between making the iterator and consuming it.\<close>

lemma Queue_iter_after_enqueue:
  "list_of_iter (Queue_iter q) (q_items (snd (enqueue q x))) = Inl RuntimeError"
  by (rule list_of_iter_forward_mutated)
     (simp_all add: Queue_iter_def deque_iter_def enqueue_def deque_append_def)

lemma Stack_iter_after_push:
  "list_of_iter (Stack_iter s) (s_items (snd (push s x)))
     = (if elems (s_items s) = [] then Inr [] else Inl RuntimeError)"
  using list_of_iter_reverse_mutated [of "s_items (snd (push s x))" "Stack_iter s"]
  by (simp add: Stack_iter_def deque_reversed_def push_def deque_append_def deque_len_def)

text \<open>
  C7. The code at two inputs where it departs from iterating a copy. A queue holds
  \<open>1\<close>; the iterator is made; \<open>2\<close> is enqueued; consuming the iterator raises
  \<open>RuntimeError\<close>, where the copy yields \<open>[1]\<close>. A stack holds \<open>1, 2, 3\<close>; the
  iterator is made; \<open>swap_top\<close> is called; the iterator yields \<open>[2, 3, 1]\<close>, where
  the copy yields \<open>[3, 2, 1]\<close>.
\<close>

theorem iteration_sees_later_mutation:
  "list_of_iter (Queue_iter (snd (enqueue Queue_init (PyInt 1))))
       (q_items (snd (enqueue (snd (enqueue Queue_init (PyInt 1))) (PyInt 2))))
     = Inl RuntimeError \<and>
   Queue_iter_copy (snd (enqueue Queue_init (PyInt 1))) = Inr [PyInt 1] \<and>
   list_of_iter (Stack_iter \<lparr>s_items = deque_new [PyInt 1, PyInt 2, PyInt 3]\<rparr>)
       (s_items (snd (swap_top \<lparr>s_items = deque_new [PyInt 1, PyInt 2, PyInt 3]\<rparr>)))
     = Inr [PyInt 2, PyInt 3, PyInt 1] \<and>
   Stack_iter_copy \<lparr>s_items = deque_new [PyInt 1, PyInt 2, PyInt 3]\<rparr>
     = Inr [PyInt 3, PyInt 2, PyInt 1]"
proof -
  let ?s = "\<lparr>s_items = deque_new [PyInt 1, PyInt 2, PyInt 3]\<rparr>"
  let ?d = "\<lparr>elems = [PyInt 1, PyInt 3, PyInt 2], state = 3\<rparr>"
  have sw: "swap_top ?s = (Inr PyNone, \<lparr>s_items = ?d\<rparr>)"
    by (simp add: swap_top_def deque_new_def deque_len_def deque_getitem_def deque_setitem_def
          deque_index_def)
  have "list_of_iter (Stack_iter ?s) ?d = Inr (rev (take (it_counter (Stack_iter ?s)) (elems ?d)))"
    by (rule list_of_iter_reverse)
       (simp_all add: Stack_iter_def deque_reversed_def deque_new_def deque_len_def)
  then have st: "list_of_iter (Stack_iter ?s) ?d = Inr [PyInt 2, PyInt 3, PyInt 1]"
    by (simp add: Stack_iter_def deque_reversed_def deque_new_def deque_len_def)
  have q: "list_of_iter (Queue_iter (snd (enqueue Queue_init (PyInt 1))))
       (q_items (snd (enqueue (snd (enqueue Queue_init (PyInt 1))) (PyInt 2))))
     = Inl RuntimeError"
    by (rule Queue_iter_after_enqueue)
  have qc: "Queue_iter_copy (snd (enqueue Queue_init (PyInt 1))) = Inr [PyInt 1]"
    by (simp add: Queue_iter_copy_eq enqueue_def Queue_init_def deque_new_def deque_append_def)
  have sc: "Stack_iter_copy ?s = Inr [PyInt 3, PyInt 2, PyInt 1]"
    by (simp add: Stack_iter_copy_eq deque_new_def)
  from q qc sc st show ?thesis by (simp only: sw snd_conv stack.simps)
qed

end
